theory Spec2Isabelle
  imports Main "HOL-Library.AList"
begin

section \<open>JavaScript values read by the hooks\<close>

text \<open>
  The hooks of \<^verbatim>\<open>src/lib/client.svelte.ts\<close> inspect a query result in three ways only:
  \<^verbatim>\<open>x !== undefined\<close>, \<^verbatim>\<open>x instanceof Error\<close> and JavaScript truthiness
  (\<^verbatim>\<open>opts.initialData && ...\<close>, \<^verbatim>\<open>keepPreviousData && state.lastResult\<close>).
  A value is \<^verbatim>\<open>undefined\<close>, a Convex value, or an \<^verbatim>\<open>Error\<close> carrying its message.
  \<open>JNumber\<close> holds an integer-valued double: the hooks read nothing of a number but
  whether it is zero, and \<^verbatim>\<open>NaN\<close> is not represented.
\<close>

datatype jsval =
    JUndefined
  | JNull
  | JBool bool
  | JNumber int
  | JBigInt int
  | JString string
  | JBytes "nat list"
  | JArray "jsval list"
  | JObject "(string \<times> jsval) list"
  | JError string

text \<open>JavaScript \<^verbatim>\<open>ToBoolean\<close>: what \<^verbatim>\<open>!!x\<close>, \<^verbatim>\<open>x && y\<close> and \<^verbatim>\<open>x ? a : b\<close> test.\<close>

fun truthy :: "jsval \<Rightarrow> bool" where
  "truthy JUndefined = False"
| "truthy JNull = False"
| "truthy (JBool b) = b"
| "truthy (JNumber n) = (n \<noteq> 0)"
| "truthy (JBigInt n) = (n \<noteq> 0)"
| "truthy (JString s) = (s \<noteq> [])"
| "truthy (JBytes bs) = True"
| "truthy (JArray xs) = True"
| "truthy (JObject kvs) = True"
| "truthy (JError m) = True"

text \<open>\<^verbatim>\<open>x instanceof Error\<close>.\<close>

fun isError :: "jsval \<Rightarrow> bool" where
  "isError (JError m) = True"
| "isError v = False"

text \<open>
  \<^verbatim>\<open>structuredClone\<close> makes a deep copy; on values compared structurally the copy equals
  the original.
\<close>

definition structuredClone :: "jsval \<Rightarrow> jsval" where
  "structuredClone v = v"

section \<open>Arguments and options: an object or a closure returning one\<close>

datatype 'o object_or_closure = Plain 'o | Closure "unit \<Rightarrow> 'o"

text \<open>
  \<^verbatim>\<open>parseArgs\<close> (lines 213-220): call the closure if there is one, then take a snapshot
  (a plain copy) of the object.
\<close>

fun parseArgs :: "'a object_or_closure \<Rightarrow> 'a" where
  "parseArgs (Plain a) = a"
| "parseArgs (Closure f) = f ()"

text \<open>
  \<^verbatim>\<open>UseQueryOptions\<close> (lines 43-50). An absent \<^verbatim>\<open>initialData\<close> is \<open>JUndefined\<close>; an absent
  \<^verbatim>\<open>keepPreviousData\<close> or \<^verbatim>\<open>enabled\<close> is \<open>None\<close>. The record is parametrised by the type
  of \<^verbatim>\<open>enabled\<close>: \<^verbatim>\<open>boolean | (() => boolean) | undefined\<close> as the caller writes it,
  \<^verbatim>\<open>boolean\<close> once \<^verbatim>\<open>parseOptions\<close> has resolved it.
\<close>

datatype enabled_opt = EnabledBool bool | EnabledFn "unit \<Rightarrow> bool"

record 'e UseQueryOptions =
  initialData :: jsval
  keepPreviousData :: "bool option"
  enabled :: 'e

text \<open>\<^verbatim>\<open>parseOptions\<close> (lines 223-243).\<close>

fun resolvedEnabled :: "enabled_opt option \<Rightarrow> bool" where
  "resolvedEnabled None = True"
| "resolvedEnabled (Some (EnabledFn f)) = f ()"
| "resolvedEnabled (Some (EnabledBool b)) = b"

definition cleanOptions :: "(enabled_opt option) UseQueryOptions \<Rightarrow> bool UseQueryOptions" where
  "cleanOptions options =
     \<lparr>initialData = initialData options,
      keepPreviousData = keepPreviousData options,
      enabled = resolvedEnabled (enabled options)\<rparr>"

fun parseOptions ::
  "(enabled_opt option) UseQueryOptions object_or_closure \<Rightarrow> bool UseQueryOptions" where
  "parseOptions (Plain options) = cleanOptions options"
| "parseOptions (Closure f) = cleanOptions (f ())"

section \<open>The external collaborators of \<^verbatim>\<open>useQuery\<close>\<close>

text \<open>
  \<^verbatim>\<open>convexToJson\<close>, \<^verbatim>\<open>JSON.stringify\<close> and the Convex client are not code of this
  repository; they are parameters. \<^verbatim>\<open>client.client.localQueryResult(name, args)\<close> either
  returns a value (\<^verbatim>\<open>undefined\<close> when the client holds no result) or throws.
\<close>

datatype lqr = Returns jsval | Throws jsval

record ('a, 'j) Env =
  convexToJson :: "'a \<Rightarrow> 'j"
  JSON_stringify :: "'j \<Rightarrow> string"
  client_disabled :: bool
  localQueryResult :: "'a \<Rightarrow> lqr"

text \<open>The query key: \<^verbatim>\<open>JSON.stringify(convexToJson(args))\<close> (lines 127, 128, 138).\<close>

definition queryKey :: "('a, 'j) Env \<Rightarrow> 'a \<Rightarrow> string" where
  "queryKey env a = JSON_stringify env (convexToJson env a)"

section \<open>\<^verbatim>\<open>useQuery\<close>: state, effects and callbacks\<close>

text \<open>The reactive \<^verbatim>\<open>state\<close> object (lines 76-89).\<close>

record 'a QueryState =
  result :: jsval
  lastResult :: jsval
  argsForLastResult :: "'a option"
  haveArgsEverChanged :: bool

definition useQuery_init ::
  "(enabled_opt option) UseQueryOptions object_or_closure \<Rightarrow> 'a QueryState" where
  "useQuery_init options =
     \<lparr>result = initialData (parseOptions options),
      lastResult = JUndefined,
      argsForLastResult = None,
      haveArgsEverChanged = False\<rparr>"

text \<open>
  The subscription effect (lines 93-122): the arguments of the \<^verbatim>\<open>client.onUpdate\<close> call
  it makes, or \<open>None\<close> when it makes none and returns the no-op cleanup.
\<close>

definition subscribeEffect ::
  "'a object_or_closure \<Rightarrow> (enabled_opt option) UseQueryOptions object_or_closure \<Rightarrow> 'a option" where
  "subscribeEffect args options =
     (let argsObject = parseArgs args; opts = parseOptions options
      in if enabled opts then Some argsObject else None)"

text \<open>The two callbacks handed to \<^verbatim>\<open>client.onUpdate\<close> (lines 102-108 and 109-115).\<close>

definition onUpdate_cb :: "'a \<Rightarrow> jsval \<Rightarrow> 'a QueryState \<Rightarrow> 'a QueryState" where
  "onUpdate_cb argsObject dataFromServer state =
     (let copy = structuredClone dataFromServer
      in state\<lparr>result := copy, argsForLastResult := Some argsObject, lastResult := copy\<rparr>)"

definition onError_cb :: "'a \<Rightarrow> string \<Rightarrow> 'a QueryState \<Rightarrow> 'a QueryState" where
  "onError_cb argsObject e state =
     (let copy = structuredClone (JError e)
      in state\<lparr>result := JError e, argsForLastResult := Some argsObject, lastResult := copy\<rparr>)"

text \<open>The effect that moves off \<^verbatim>\<open>initialData\<close> once the args change (lines 133-148).\<close>

definition argsChangedEffect ::
  "('a, 'j) Env \<Rightarrow> 'a \<Rightarrow> 'a object_or_closure \<Rightarrow>
   (enabled_opt option) UseQueryOptions object_or_closure \<Rightarrow> 'a QueryState \<Rightarrow> 'a QueryState" where
  "argsChangedEffect env initialArgs args options state =
     (if \<not> haveArgsEverChanged state then
        if queryKey env (parseArgs args) \<noteq> queryKey env initialArgs then
          let state1 = state\<lparr>haveArgsEverChanged := True\<rparr>;
              opts = parseOptions options
          in if initialData opts \<noteq> JUndefined
             then state1\<lparr>argsForLastResult := Some initialArgs,
                         lastResult := initialData (parseOptions options)\<rparr>
             else state1
        else state
      else state)"

section \<open>\<^verbatim>\<open>useQuery\<close>: derived values and getters\<close>

text \<open>\<^verbatim>\<open>sameArgsAsLastResult\<close> (lines 125-129) and \<^verbatim>\<open>staleAllowed\<close> (line 130).\<close>

definition sameArgsAsLastResult ::
  "('a, 'j) Env \<Rightarrow> 'a object_or_closure \<Rightarrow> 'a QueryState \<Rightarrow> bool" where
  "sameArgsAsLastResult env args state =
     (case argsForLastResult state of
        None \<Rightarrow> False
      | Some a \<Rightarrow> queryKey env a = queryKey env (parseArgs args))"

definition staleAllowed ::
  "(enabled_opt option) UseQueryOptions object_or_closure \<Rightarrow> 'a QueryState \<Rightarrow> bool" where
  "staleAllowed options state =
     (keepPreviousData (parseOptions options) = Some True \<and> truthy (lastResult state))"

text \<open>
  \<^verbatim>\<open>syncResult\<close> (lines 151-172). \<open>Inr v\<close> is the value returned; \<open>Inl t\<close> is the rethrow of
  a thrown \<open>t\<close> that is not an \<^verbatim>\<open>Error\<close> (lines 162-166).
\<close>

definition syncResult ::
  "('a, 'j) Env \<Rightarrow> 'a object_or_closure \<Rightarrow>
   (enabled_opt option) UseQueryOptions object_or_closure \<Rightarrow> 'a QueryState \<Rightarrow> jsval + jsval" where
  "syncResult env args options state =
     (let opts = parseOptions options
      in if truthy (initialData opts) \<and> \<not> haveArgsEverChanged state then Inr (result state)
         else if client_disabled env then Inr JUndefined
         else (case localQueryResult env (parseArgs args) of
                 Returns v \<Rightarrow> Inr v
               | Throws e \<Rightarrow> if \<not> isError e then Inl e else Inr e))"

text \<open>\<^verbatim>\<open>result\<close> (lines 174-176).\<close>

definition derived_result ::
  "('a, 'j) Env \<Rightarrow> 'a object_or_closure \<Rightarrow>
   (enabled_opt option) UseQueryOptions object_or_closure \<Rightarrow> 'a QueryState \<Rightarrow> jsval + jsval" where
  "derived_result env args options state =
     (case syncResult env args options state of
        Inl t \<Rightarrow> Inl t
      | Inr s \<Rightarrow> Inr (if s \<noteq> JUndefined then s
                      else if staleAllowed options state then lastResult state
                      else JUndefined))"

text \<open>\<^verbatim>\<open>isStale\<close> (lines 177-179).\<close>

definition isStale ::
  "('a, 'j) Env \<Rightarrow> 'a object_or_closure \<Rightarrow>
   (enabled_opt option) UseQueryOptions object_or_closure \<Rightarrow> 'a QueryState \<Rightarrow> jsval + bool" where
  "isStale env args options state =
     (case syncResult env args options state of
        Inl t \<Rightarrow> Inl t
      | Inr s \<Rightarrow>
          if s = JUndefined \<and> staleAllowed options state \<and> \<not> sameArgsAsLastResult env args state
          then (case derived_result env args options state of
                  Inl t \<Rightarrow> Inl t
                | Inr r \<Rightarrow> Inr (r \<noteq> JUndefined))
          else Inr False)"

text \<open>\<^verbatim>\<open>data\<close> (lines 180-185) and \<^verbatim>\<open>error\<close> (lines 186-191).\<close>

definition data ::
  "('a, 'j) Env \<Rightarrow> 'a object_or_closure \<Rightarrow>
   (enabled_opt option) UseQueryOptions object_or_closure \<Rightarrow> 'a QueryState \<Rightarrow> jsval + jsval" where
  "data env args options state =
     (case derived_result env args options state of
        Inl t \<Rightarrow> Inl t
      | Inr r \<Rightarrow> Inr (if isError r then JUndefined else r))"

definition error ::
  "('a, 'j) Env \<Rightarrow> 'a object_or_closure \<Rightarrow>
   (enabled_opt option) UseQueryOptions object_or_closure \<Rightarrow> 'a QueryState \<Rightarrow> jsval + jsval" where
  "error env args options state =
     (case derived_result env args options state of
        Inl t \<Rightarrow> Inl t
      | Inr r \<Rightarrow> Inr (if isError r then r else JUndefined))"

text \<open>The \<^verbatim>\<open>isLoading\<close> getter (lines 198-202).\<close>

definition isLoading ::
  "('a, 'j) Env \<Rightarrow> 'a object_or_closure \<Rightarrow>
   (enabled_opt option) UseQueryOptions object_or_closure \<Rightarrow> 'a QueryState \<Rightarrow> jsval + bool" where
  "isLoading env args options state =
     (let opts = parseOptions options
      in if \<not> enabled opts then Inr False
         else (case error env args options state of
                 Inl t \<Rightarrow> Inl t
               | Inr e \<Rightarrow>
                   if e = JUndefined
                   then (case data env args options state of
                           Inl t \<Rightarrow> Inl t
                         | Inr d \<Rightarrow> Inr (d = JUndefined))
                   else Inr False))"

section \<open>\<^verbatim>\<open>useQuery\<close>: runs of the hook\<close>

text \<open>
  What can happen to a mounted \<^verbatim>\<open>useQuery\<close>: the client calls the update or the error
  callback of the current subscription, or the args change. A change of args re-runs both
  effects: the subscription effect unsubscribes and subscribes again, so the callbacks
  that can be called next are those that captured the new args as \<^verbatim>\<open>argsObject\<close>, and
  the other effect (lines 135-148) runs on the new args. When the query is not enabled there
  is no subscription and no callback is called. A run carries the current args;
  \<^verbatim>\<open>initialArgs\<close> is the value of the args when the hook was created.
\<close>

datatype 'a qevent = QDeliver jsval | QFail string | QArgs 'a

fun qstep ::
  "('a, 'j) Env \<Rightarrow> 'a \<Rightarrow> (enabled_opt option) UseQueryOptions object_or_closure \<Rightarrow>
   'a qevent \<Rightarrow> 'a QueryState \<times> 'a \<Rightarrow> 'a QueryState \<times> 'a" where
  "qstep env initialArgs options (QArgs a) (state, cur) =
     (argsChangedEffect env initialArgs (Plain a) options state, a)"
| "qstep env initialArgs options (QDeliver v) (state, cur) =
     (case subscribeEffect (Plain cur) options of
        None \<Rightarrow> (state, cur)
      | Some argsObject \<Rightarrow> (onUpdate_cb argsObject v state, cur))"
| "qstep env initialArgs options (QFail e) (state, cur) =
     (case subscribeEffect (Plain cur) options of
        None \<Rightarrow> (state, cur)
      | Some argsObject \<Rightarrow> (onError_cb argsObject e state, cur))"

definition qrun ::
  "('a, 'j) Env \<Rightarrow> (enabled_opt option) UseQueryOptions object_or_closure \<Rightarrow> 'a \<Rightarrow>
   'a qevent list \<Rightarrow> 'a QueryState \<times> 'a" where
  "qrun env options a0 evs = fold (qstep env a0 options) evs (useQuery_init options, a0)"

text \<open>What an event delivers: the value of an update, the \<^verbatim>\<open>Error\<close> of a failure.\<close>

fun delivered :: "'a qevent \<Rightarrow> jsval option" where
  "delivered (QDeliver v) = Some v"
| "delivered (QFail e) = Some (JError e)"
| "delivered (QArgs a) = None"

section \<open>\<^verbatim>\<open>usePaginatedQuery\<close>: data\<close>

text \<open>
  \<^verbatim>\<open>PaginationResult\<close>: the page a paginated query returns. The hook reads \<^verbatim>\<open>page\<close>,
  \<^verbatim>\<open>isDone\<close> and \<^verbatim>\<open>continueCursor\<close>, and compares whole pages with \<^verbatim>\<open>isEqual\<close>.
\<close>

record 'i PaginationResult =
  page :: "'i list"
  isDone :: bool
  continueCursor :: string

text \<open>\<^verbatim>\<open>UsePaginatedQueryOptions\<close> (lines 251-254); an absent option is \<open>None\<close>.\<close>

record 'i UsePaginatedQueryOptions =
  initialNumItems :: "int option"
  initialData_p :: "'i PaginationResult option"

datatype UsePaginationQueryStatus = LoadingFirstPage | CanLoadMore | LoadingMore | Exhausted

text \<open>
  The Convex client, as far as the hook uses it. One \<^verbatim>\<open>client.onUpdate\<close> call registers a
  subscription: the query arguments \<^verbatim>\<open>{...args, paginationOpts: {numItems, cursor}}\<close>
  and the two callbacks, which close over \<^verbatim>\<open>pageKey\<close>. The call returns the
  \<^verbatim>\<open>unsubscribe\<close> function of that subscription, identified here by the number of the
  call. A subscription stays active until its \<^verbatim>\<open>unsubscribe\<close> is called.
\<close>

record 'a PageSubscription =
  sub_args :: 'a
  sub_numItems :: int
  sub_cursor :: "string option"
  sub_pageKey :: string

record 'a ConvexClient =
  active :: "(nat \<times> 'a PageSubscription) list"
  issued :: nat

definition client_onUpdate :: "'a PageSubscription \<Rightarrow> 'a ConvexClient \<Rightarrow> nat \<times> 'a ConvexClient" where
  "client_onUpdate s c =
     (issued c, c\<lparr>active := active c @ [(issued c, s)], issued := Suc (issued c)\<rparr>)"

definition client_unsubscribe :: "nat \<Rightarrow> 'a ConvexClient \<Rightarrow> 'a ConvexClient" where
  "client_unsubscribe h c = c\<lparr>active := filter (\<lambda>e. fst e \<noteq> h) (active c)\<rparr>"

text \<open>
  The variables of one \<^verbatim>\<open>usePaginatedQuery\<close> call (lines 293-302 and 341), together with
  the client they act on. \<^verbatim>\<open>pagesLoading\<close> is an object and \<^verbatim>\<open>subscriptions\<close> a
  \<^verbatim>\<open>Map\<close>: association lists, written with \<open>AList.update\<close> (replace the value of a
  key in place, or append the key).
\<close>

record ('a, 'i) PaginatedState =
  nextCursor :: "string option"
  pages :: "'i PaginationResult list"
  pagesLoading :: "(string \<times> bool) list"
  isDone_st :: bool
  error_st :: "string option"
  subscriptions :: "(string \<times> nat) list"
  isFirstRender :: bool
  client :: "'a ConvexClient"

definition usePaginatedQuery_init ::
  "'i UsePaginatedQueryOptions \<Rightarrow> 'a ConvexClient \<Rightarrow> ('a, 'i) PaginatedState" where
  "usePaginatedQuery_init options c =
     \<lparr>nextCursor = (case initialData_p options of
                      Some initial \<Rightarrow> Some (continueCursor initial) | None \<Rightarrow> None),
      pages = (case initialData_p options of Some initial \<Rightarrow> [initial] | None \<Rightarrow> []),
      pagesLoading =
        [(''initial'', (case initialData_p options of Some initial \<Rightarrow> False | None \<Rightarrow> True))],
      isDone_st = (case initialData_p options of
                     Some initial \<Rightarrow> (if isDone initial then True else False)
                   | None \<Rightarrow> False),
      error_st = None,
      subscriptions = [],
      isFirstRender = True,
      client = c\<rparr>"

section \<open>\<^verbatim>\<open>usePaginatedQuery\<close>: \<^verbatim>\<open>subscribeToPage\<close> and its callbacks\<close>

text \<open>\<^verbatim>\<open>cursor ?? 'initial'\<close> (line 305) and the truthiness test \<^verbatim>\<open>if (cursor)\<close> (line 307).\<close>

definition pageKey_of :: "string option \<Rightarrow> string" where
  "pageKey_of cursor = (case cursor of None \<Rightarrow> ''initial'' | Some c \<Rightarrow> c)"

definition cursor_truthy :: "string option \<Rightarrow> bool" where
  "cursor_truthy cursor = (case cursor of None \<Rightarrow> False | Some c \<Rightarrow> c \<noteq> [])"

text \<open>\<^verbatim>\<open>const { initialNumItems = 10, initialData } = options\<close> (line 290).\<close>

definition initialNumItems_of :: "'i UsePaginatedQueryOptions \<Rightarrow> int" where
  "initialNumItems_of options = (case initialNumItems options of None \<Rightarrow> 10 | Some n \<Rightarrow> n)"

text \<open>\<^verbatim>\<open>Array.prototype.findIndex\<close>; \<open>None\<close> is its \<^verbatim>\<open>-1\<close>.\<close>

fun findIndex :: "('x \<Rightarrow> bool) \<Rightarrow> 'x list \<Rightarrow> nat option" where
  "findIndex P [] = None"
| "findIndex P (x # xs) = (if P x then Some 0 else map_option Suc (findIndex P xs))"

text \<open>The update callback of a page subscription (lines 314-329).\<close>

definition page_onUpdate ::
  "string \<Rightarrow> 'i PaginationResult \<Rightarrow> ('a, 'i) PaginatedState \<Rightarrow> ('a, 'i) PaginatedState" where
  "page_onUpdate pageKey dataFromServer st =
     (let st1 = st\<lparr>pagesLoading := AList.update pageKey False (pagesLoading st)\<rparr>;
          st2 = (case findIndex (\<lambda>p. continueCursor p = continueCursor dataFromServer) (pages st1) of
                   None \<Rightarrow> st1\<lparr>pages := pages st1 @ [dataFromServer]\<rparr>
                 | Some pageIndex \<Rightarrow>
                     (let existingPage = pages st1 ! pageIndex
                      in if existingPage \<noteq> dataFromServer
                         then st1\<lparr>pages := (pages st1)[pageIndex := dataFromServer]\<rparr>
                         else st1))
      in st2\<lparr>nextCursor := Some (continueCursor dataFromServer),
              isDone_st := isDone dataFromServer\<rparr>)"

text \<open>The error callback (lines 330-333).\<close>

definition page_onError :: "string \<Rightarrow> ('a, 'i) PaginatedState \<Rightarrow> ('a, 'i) PaginatedState" where
  "page_onError e st = st\<lparr>error_st := Some e\<rparr>"

text \<open>
  \<^verbatim>\<open>subscribeToPage\<close> (lines 304-338): returns the \<^verbatim>\<open>unsubscribe\<close> handle and the new
  state.
\<close>

definition subscribeToPage ::
  "'i UsePaginatedQueryOptions \<Rightarrow> string option \<Rightarrow> 'a \<Rightarrow> ('a, 'i) PaginatedState \<Rightarrow>
   nat \<times> ('a, 'i) PaginatedState" where
  "subscribeToPage options cursor args st =
     (let pageKey = pageKey_of cursor;
          st1 = (if cursor_truthy cursor
                 then st\<lparr>pagesLoading := AList.update pageKey True (pagesLoading st)\<rparr>
                 else st);
          call = client_onUpdate
                   \<lparr>sub_args = args, sub_numItems = initialNumItems_of options,
                    sub_cursor = cursor, sub_pageKey = pageKey\<rparr> (client st1);
          unsubscribe = fst call
      in (unsubscribe,
          st1\<lparr>client := snd call,
               subscriptions := AList.update pageKey unsubscribe (subscriptions st1)\<rparr>))"

text \<open>
  What the client does with a subscription: it calls the subscription's callbacks while
  the subscription is active, and never after its \<^verbatim>\<open>unsubscribe\<close>.
\<close>

definition deliver ::
  "nat \<Rightarrow> 'i PaginationResult \<Rightarrow> ('a, 'i) PaginatedState \<Rightarrow> ('a, 'i) PaginatedState" where
  "deliver h dataFromServer st =
     (case map_of (active (client st)) h of
        None \<Rightarrow> st
      | Some s \<Rightarrow> page_onUpdate (sub_pageKey s) dataFromServer st)"

definition deliverError ::
  "nat \<Rightarrow> string \<Rightarrow> ('a, 'i) PaginatedState \<Rightarrow> ('a, 'i) PaginatedState" where
  "deliverError h e st =
     (case map_of (active (client st)) h of
        None \<Rightarrow> st
      | Some s \<Rightarrow> page_onError e st)"

section \<open>\<^verbatim>\<open>usePaginatedQuery\<close>: the effect, \<^verbatim>\<open>loadMore\<close>, \<^verbatim>\<open>status\<close> and \<^verbatim>\<open>results\<close>\<close>

text \<open>
  \<^verbatim>\<open>subscriptions.forEach(unsubscribe => unsubscribe()); subscriptions.clear()\<close>
  (lines 350-351 and 379-380).
\<close>

definition unsubscribeAll :: "('a, 'i) PaginatedState \<Rightarrow> ('a, 'i) PaginatedState" where
  "unsubscribeAll st =
     st\<lparr>client := fold client_unsubscribe (map snd (subscriptions st)) (client st),
        subscriptions := []\<rparr>"

text \<open>The body of the effect (lines 344-375) and the cleanup it returns (lines 378-381).\<close>

definition effect_body ::
  "'i UsePaginatedQueryOptions \<Rightarrow> 'a object_or_closure \<Rightarrow> ('a, 'i) PaginatedState \<Rightarrow>
   ('a, 'i) PaginatedState" where
  "effect_body options args st =
     (let argsObject = parseArgs args;
          st1 = unsubscribeAll st;
          fresh = st1\<lparr>nextCursor := None, pages := [],
                      pagesLoading := [(''initial'', True)], isDone_st := False\<rparr>;
          st2 = (case initialData_p options of
                   Some initial \<Rightarrow>
                     if isFirstRender st1
                     then st1\<lparr>nextCursor := Some (continueCursor initial),
                              pages := [initial],
                              pagesLoading := [(''initial'', False)],
                              isDone_st := isDone initial\<rparr>
                     else fresh
                 | None \<Rightarrow> fresh);
          st3 = st2\<lparr>error_st := None, isFirstRender := False\<rparr>
      in snd (subscribeToPage options None argsObject st3))"

definition effect_cleanup :: "('a, 'i) PaginatedState \<Rightarrow> ('a, 'i) PaginatedState" where
  "effect_cleanup st = unsubscribeAll st"

text \<open>
  \<^verbatim>\<open>loadMore\<close> (lines 385-387). Its declared type is \<^verbatim>\<open>(numItems: number) => void\<close>
  (line 269); the function written takes no parameter, so the argument of a call is dropped.
\<close>

definition loadMore ::
  "'i UsePaginatedQueryOptions \<Rightarrow> 'a object_or_closure \<Rightarrow> int \<Rightarrow> ('a, 'i) PaginatedState \<Rightarrow>
   ('a, 'i) PaginatedState" where
  "loadMore options args numItems st =
     snd (subscribeToPage options (nextCursor st) (parseArgs args) st)"

text \<open>\<^verbatim>\<open>status\<close> (lines 390-406) and \<^verbatim>\<open>results\<close> (line 409).\<close>

definition status :: "('a, 'i) PaginatedState \<Rightarrow> UsePaginationQueryStatus" where
  "status st =
     (if map_of (pagesLoading st) ''initial'' = Some True then LoadingFirstPage
      else let atLeastOnePageLoaded = list_ex (\<lambda>loading. loading) (map snd (pagesLoading st))
           in if atLeastOnePageLoaded then LoadingMore
              else if isDone_st st then Exhausted
              else CanLoadMore)"

definition results :: "('a, 'i) PaginatedState \<Rightarrow> 'i list" where
  "results st = concat (map page (pages st))"

section \<open>\<^verbatim>\<open>usePaginatedQuery\<close>: runs of the hook\<close>

text \<open>
  What can happen to a mounted hook: the args change (the runtime runs the cleanup of the
  previous effect run, then the effect body again), the component calls \<^verbatim>\<open>loadMore\<close>,
  the client calls a callback of a subscription, or the component is unmounted (the
  cleanup runs). A run starts with the first run of the effect and carries the current
  value of the reactive args.
\<close>

datatype ('a, 'i) event =
    ArgsChange 'a
  | LoadMore int
  | Deliver nat "'i PaginationResult"
  | DeliverError nat string
  | Unmount

fun step ::
  "'i UsePaginatedQueryOptions \<Rightarrow> ('a, 'i) event \<Rightarrow> ('a, 'i) PaginatedState \<times> 'a \<Rightarrow>
   ('a, 'i) PaginatedState \<times> 'a" where
  "step options (ArgsChange a) (st, cur) = (effect_body options (Plain a) (effect_cleanup st), a)"
| "step options (LoadMore n) (st, cur) = (loadMore options (Plain cur) n st, cur)"
| "step options (Deliver h d) (st, cur) = (deliver h d st, cur)"
| "step options (DeliverError h e) (st, cur) = (deliverError h e st, cur)"
| "step options Unmount (st, cur) = (effect_cleanup st, cur)"

definition mount ::
  "'i UsePaginatedQueryOptions \<Rightarrow> 'a \<Rightarrow> ('a, 'i) PaginatedState \<times> 'a" where
  "mount options a =
     (effect_body options (Plain a)
        (usePaginatedQuery_init options \<lparr>active = [], issued = 0\<rparr>), a)"

definition run ::
  "'i UsePaginatedQueryOptions \<Rightarrow> 'a \<Rightarrow> ('a, 'i) event list \<Rightarrow> ('a, 'i) PaginatedState \<times> 'a" where
  "run options a evs = fold (step options) evs (mount options a)"

text \<open>
  Every handle the hook or the client holds was returned by an earlier
  \<^verbatim>\<open>client.onUpdate\<close> call. It holds in every run of the hook (\<open>run_handles\<close> below), so
  the handle of a new subscription differs from every handle already stored.
\<close>

definition handles_issued :: "('a, 'i) PaginatedState \<Rightarrow> bool" where
  "handles_issued st =
     ((\<forall>e\<in>set (active (client st)). fst e < issued (client st)) \<and>
      (\<forall>k h. map_of (subscriptions st) k = Some h \<longrightarrow> h < issued (client st)))"

section \<open>Concrete inputs\<close>

text \<open>
  A client that holds the result \<open>7\<close> for the args \<open>[''vim'']\<close>, an error for
  \<open>[''err'']\<close> and nothing for any other args; the args are a list of mute words, as in
  the demo's \<^verbatim>\<open>Chat.svelte\<close>.
\<close>

definition demo_env :: "(string list, string list) Env" where
  "demo_env =
     \<lparr>convexToJson = (\<lambda>a. a),
      JSON_stringify = (\<lambda>j. concat (map (\<lambda>w. w @ '','') j)),
      client_disabled = False,
      localQueryResult =
        (\<lambda>a. if a = [''vim''] then Returns (JNumber 7)
             else if a = [''err''] then Throws (JError ''boom'')
             else Returns JUndefined)\<rparr>"

definition keep_options :: "(enabled_opt option) UseQueryOptions object_or_closure" where
  "keep_options = Plain \<lparr>initialData = JUndefined, keepPreviousData = Some True, enabled = None\<rparr>"

definition seeded_options :: "(enabled_opt option) UseQueryOptions object_or_closure" where
  "seeded_options =
     Plain \<lparr>initialData = JNumber 5, keepPreviousData = Some True, enabled = None\<rparr>"

definition off_options :: "(enabled_opt option) UseQueryOptions" where
  "off_options =
     \<lparr>initialData = JUndefined, keepPreviousData = None, enabled = Some (EnabledBool False)\<rparr>"

definition demo_options :: "nat UsePaginatedQueryOptions" where
  "demo_options = \<lparr>initialNumItems = None, initialData_p = None\<rparr>"

definition pageA :: "nat PaginationResult" where
  "pageA = \<lparr>page = [1, 2], isDone = False, continueCursor = ''A''\<rparr>"

definition pageA2 :: "nat PaginationResult" where
  "pageA2 = \<lparr>page = [1, 2, 3], isDone = True, continueCursor = ''A''\<rparr>"

definition pageB :: "nat PaginationResult" where
  "pageB = \<lparr>page = [0, 1], isDone = False, continueCursor = ''B''\<rparr>"

section \<open>\<^verbatim>\<open>useQuery\<close>: properties\<close>

lemmas query_defs =
  demo_env_def keep_options_def off_options_def cleanOptions_def useQuery_init_def
  onUpdate_cb_def onError_cb_def structuredClone_def queryKey_def syncResult_def
  derived_result_def staleAllowed_def sameArgsAsLastResult_def data_def error_def
  isLoading_def isStale_def subscribeEffect_def Let_def

text \<open>
  Whenever the state holds a last result it also holds the args of that result: the three
  writers of \<open>lastResult\<close> write \<open>argsForLastResult\<close> with it.
\<close>

lemma lastResult_has_args_init:
  "lastResult (useQuery_init options :: 'a QueryState) = JUndefined"
  by (simp add: useQuery_init_def)

lemma lastResult_has_args_callbacks:
  "argsForLastResult (onUpdate_cb a v state) = Some a"
  "argsForLastResult (onError_cb a e state) = Some a"
  by (simp_all add: onUpdate_cb_def onError_cb_def Let_def)

lemma lastResult_has_args_effect:
  assumes "lastResult state \<noteq> JUndefined \<Longrightarrow> argsForLastResult state \<noteq> None"
    and "lastResult (argsChangedEffect env initialArgs args options state) \<noteq> JUndefined"
  shows "argsForLastResult (argsChangedEffect env initialArgs args options state) \<noteq> None"
  using assms by (auto simp: argsChangedEffect_def Let_def split: if_splits)

text \<open>
  Claim C8. Whenever the derived \<^verbatim>\<open>result\<close> has a value \<open>r\<close>, the getters \<^verbatim>\<open>data\<close> and
  \<^verbatim>\<open>error\<close> have values too, \<^verbatim>\<open>error\<close> is defined exactly when \<open>r\<close> is an \<^verbatim>\<open>Error\<close>,
  \<^verbatim>\<open>data\<close> is defined exactly when \<open>r\<close> is defined and not an \<^verbatim>\<open>Error\<close>, and the two
  are never both defined. (When \<^verbatim>\<open>localQueryResult\<close> throws something that is not an
  \<^verbatim>\<open>Error\<close>, the derived value rethrows it and so do both getters.)
\<close>

theorem data_error_exclusive:
  "(derived_result env args options state = Inr r \<longrightarrow>
      (\<exists>d e. data env args options state = Inr d \<and> error env args options state = Inr e \<and>
         (e \<noteq> JUndefined) = isError r \<and>
         (d \<noteq> JUndefined) = (r \<noteq> JUndefined \<and> \<not> isError r) \<and>
         \<not> (d \<noteq> JUndefined \<and> e \<noteq> JUndefined))) \<and>
   (derived_result env args options state = Inl t \<longrightarrow>
      data env args options state = Inl t \<and> error env args options state = Inl t)"
proof (intro conjI impI)
  assume r: "derived_result env args options state = Inr r"
  show "\<exists>d e. data env args options state = Inr d \<and> error env args options state = Inr e \<and>
         (e \<noteq> JUndefined) = isError r \<and>
         (d \<noteq> JUndefined) = (r \<noteq> JUndefined \<and> \<not> isError r) \<and>
         \<not> (d \<noteq> JUndefined \<and> e \<noteq> JUndefined)"
  proof (cases "isError r")
    case True
    then obtain m where "r = JError m" by (cases r) simp_all
    with r show ?thesis by (simp add: data_def error_def)
  next
    case False
    with r show ?thesis by (simp add: data_def error_def)
  qed
next
  assume "derived_result env args options state = Inl t"
  then show "data env args options state = Inl t" and "error env args options state = Inl t"
    by (simp_all add: data_def error_def)
qed

theorem data_error_exclusive_witness:
  "derived_result demo_env (Plain [''vim'']) keep_options (useQuery_init keep_options) =
     Inr (JNumber 7) \<and>
   data demo_env (Plain [''vim'']) keep_options (useQuery_init keep_options) = Inr (JNumber 7) \<and>
   error demo_env (Plain [''vim'']) keep_options (useQuery_init keep_options) = Inr JUndefined \<and>
   derived_result demo_env (Plain [''err'']) keep_options (useQuery_init keep_options) =
     Inr (JError ''boom'') \<and>
   data demo_env (Plain [''err'']) keep_options (useQuery_init keep_options) = Inr JUndefined \<and>
   error demo_env (Plain [''err'']) keep_options (useQuery_init keep_options) =
     Inr (JError ''boom'')"
  using data_error_exclusive
      [of demo_env "Plain [''vim'']" keep_options "useQuery_init keep_options" "JNumber 7"]
    data_error_exclusive
      [of demo_env "Plain [''err'']" keep_options "useQuery_init keep_options" "JError ''boom''"]
  by (simp add: query_defs)

text \<open>
  Claim C3. The client reports an error \<open>e\<close> for the current subscription: it calls the
  error callback of the subscription for the current args, and the result the getters
  read is that error, either because they read \<^verbatim>\<open>state.result\<close> (truthy \<^verbatim>\<open>initialData\<close>,
  args never changed) or because the client's \<^verbatim>\<open>localQueryResult\<close> for the current args
  throws it. Then \<^verbatim>\<open>error\<close> is \<open>e\<close>, \<^verbatim>\<open>data\<close> is \<^verbatim>\<open>undefined\<close> and \<^verbatim>\<open>isLoading\<close> is
  false. Conversely, whenever the derived \<^verbatim>\<open>result\<close> is not an \<^verbatim>\<open>Error\<close>, \<^verbatim>\<open>error\<close> is
  \<^verbatim>\<open>undefined\<close>.
\<close>

theorem useQuery_error_forwarded:
  "(state' = onError_cb (parseArgs args) e state \<and>
    (truthy (initialData (parseOptions options)) \<and> \<not> haveArgsEverChanged state \<or>
     \<not> client_disabled env \<and> localQueryResult env (parseArgs args) = Throws (JError e))
    \<longrightarrow> error env args options state' = Inr (JError e) \<and>
        data env args options state' = Inr JUndefined \<and>
        isLoading env args options state' = Inr False) \<and>
   (derived_result env args options state = Inr r \<and> \<not> isError r
    \<longrightarrow> error env args options state = Inr JUndefined)"
proof (intro conjI impI)
  assume h: "state' = onError_cb (parseArgs args) e state \<and>
    (truthy (initialData (parseOptions options)) \<and> \<not> haveArgsEverChanged state \<or>
     \<not> client_disabled env \<and> localQueryResult env (parseArgs args) = Throws (JError e))"
  then have "syncResult env args options state' = Inr (JError e)"
    by (auto simp: syncResult_def onError_cb_def structuredClone_def Let_def)
  then have r: "derived_result env args options state' = Inr (JError e)"
    by (simp add: derived_result_def)
  then show "error env args options state' = Inr (JError e)"
    and "data env args options state' = Inr JUndefined"
    and "isLoading env args options state' = Inr False"
    by (simp_all add: error_def data_def isLoading_def Let_def)
next
  assume "derived_result env args options state = Inr r \<and> \<not> isError r"
  then show "error env args options state = Inr JUndefined"
    by (simp add: error_def)
qed

theorem useQuery_error_forwarded_witness:
  "error demo_env (Plain [''err'']) keep_options
     (onError_cb [''err''] ''boom'' (useQuery_init keep_options)) = Inr (JError ''boom'') \<and>
   data demo_env (Plain [''err'']) keep_options
     (onError_cb [''err''] ''boom'' (useQuery_init keep_options)) = Inr JUndefined \<and>
   isLoading demo_env (Plain [''err'']) keep_options
     (onError_cb [''err''] ''boom'' (useQuery_init keep_options)) = Inr False \<and>
   error demo_env (Plain [''vim'']) keep_options (useQuery_init keep_options) = Inr JUndefined"
  using useQuery_error_forwarded
      [of "onError_cb [''err''] ''boom'' (useQuery_init keep_options)" "Plain [''err'']" "''boom''"
        "useQuery_init keep_options" keep_options demo_env "JNumber 7"]
    useQuery_error_forwarded
      [of "onError_cb [''err''] ''boom'' (useQuery_init keep_options)" "Plain [''vim'']" "''boom''"
        "useQuery_init keep_options" keep_options demo_env "JNumber 7"]
  by (simp add: query_defs)

text \<open>
  What the getters return when the state holds a truthy \<open>lastResult\<close> and nothing is
  available for the current args.
\<close>

lemma keep_previous_of_lastResult:
  assumes keep: "keepPreviousData (parseOptions options) = Some True"
    and nosync: "syncResult env args options state = Inr JUndefined"
    and prev: "truthy (lastResult state)"
    and prevargs: "argsForLastResult state = Some a"
  shows "derived_result env args options state = Inr (lastResult state) \<and>
         data env args options state =
           Inr (if isError (lastResult state) then JUndefined else lastResult state) \<and>
         error env args options state =
           Inr (if isError (lastResult state) then lastResult state else JUndefined) \<and>
         isLoading env args options state = Inr False \<and>
         isStale env args options state =
           Inr (JSON_stringify env (convexToJson env a) \<noteq>
                JSON_stringify env (convexToJson env (parseArgs args)))"
proof -
  have sa: "staleAllowed options state" using keep prev by (simp add: staleAllowed_def)
  have defined: "lastResult state \<noteq> JUndefined" using prev by auto
  have r: "derived_result env args options state = Inr (lastResult state)"
    using nosync sa by (simp add: derived_result_def)
  have d: "data env args options state =
           Inr (if isError (lastResult state) then JUndefined else lastResult state)"
    using r by (simp add: data_def)
  have e: "error env args options state =
           Inr (if isError (lastResult state) then lastResult state else JUndefined)"
    using r by (simp add: error_def)
  have l: "isLoading env args options state = Inr False"
    using d e defined by (simp add: isLoading_def Let_def)
  have s: "isStale env args options state =
           Inr (JSON_stringify env (convexToJson env a) \<noteq>
                JSON_stringify env (convexToJson env (parseArgs args)))"
    using nosync sa r defined prevargs
    by (simp add: isStale_def sameArgsAsLastResult_def queryKey_def)
  from r d e l s show ?thesis by blast
qed

text \<open>How a run writes \<open>lastResult\<close>, \<open>argsForLastResult\<close> and \<open>haveArgsEverChanged\<close>.\<close>

lemma qrun_append:
  "qrun env options a0 (xs @ ys) = fold (qstep env a0 options) ys (qrun env options a0 xs)"
  by (simp add: qrun_def)

lemma qrun_snoc:
  "qrun env options a0 (evs @ [ev]) = qstep env a0 options ev (qrun env options a0 evs)"
  by (simp add: qrun_def)

lemma qstep_delivered:
  assumes "enabled (parseOptions options)" and "delivered ev = Some r"
  shows "snd (qstep env a0 options ev (state, cur)) = cur \<and>
         lastResult (fst (qstep env a0 options ev (state, cur))) = r \<and>
         argsForLastResult (fst (qstep env a0 options ev (state, cur))) = Some cur \<and>
         haveArgsEverChanged (fst (qstep env a0 options ev (state, cur))) =
           haveArgsEverChanged state"
  using assms
  by (cases ev)
    (simp_all add: subscribeEffect_def onUpdate_cb_def onError_cb_def structuredClone_def Let_def)

lemma qstep_changed:
  "haveArgsEverChanged (fst (qstep env a0 options ev (state, cur))) =
     (haveArgsEverChanged state \<or>
      (\<exists>a. ev = QArgs a \<and> queryKey env a \<noteq> queryKey env a0))"
  by (cases ev)
    (auto simp: argsChangedEffect_def subscribeEffect_def onUpdate_cb_def onError_cb_def Let_def)

text \<open>
  \<^verbatim>\<open>haveArgsEverChanged\<close> is true exactly when the args have at some time had a key other
  than that of the initial args.
\<close>

lemma qrun_changed_iff:
  "haveArgsEverChanged (fst (qrun env options a0 evs)) =
     (\<exists>a. QArgs a \<in> set evs \<and> queryKey env a \<noteq> queryKey env a0)"
proof (induction evs rule: rev_induct)
  case Nil
  show ?case by (simp add: qrun_def useQuery_init_def)
next
  case (snoc ev evs)
  obtain st c where p: "qrun env options a0 evs = (st, c)" by (cases "qrun env options a0 evs")
  from snoc p have "haveArgsEverChanged st =
      (\<exists>a. QArgs a \<in> set evs \<and> queryKey env a \<noteq> queryKey env a0)" by simp
  then show ?case by (auto simp: qrun_snoc p qstep_changed)
qed

lemma argsChangedEffect_keeps:
  assumes "initialData (parseOptions options) = JUndefined \<or> haveArgsEverChanged state"
  shows "lastResult (argsChangedEffect env a0 args options state) = lastResult state \<and>
         argsForLastResult (argsChangedEffect env a0 args options state) =
           argsForLastResult state \<and>
         (initialData (parseOptions options) = JUndefined \<or>
          haveArgsEverChanged (argsChangedEffect env a0 args options state))"
  using assms by (auto simp: argsChangedEffect_def Let_def)

lemma args_only_keep:
  assumes "initialData (parseOptions options) = JUndefined \<or> haveArgsEverChanged state"
  shows "lastResult (fst (fold (qstep env a0 options) (map QArgs later) (state, cur))) =
           lastResult state \<and>
         argsForLastResult (fst (fold (qstep env a0 options) (map QArgs later) (state, cur))) =
           argsForLastResult state"
  using assms
proof (induction later arbitrary: state cur)
  case Nil
  show ?case by simp
next
  case (Cons a later)
  from argsChangedEffect_keeps[OF Cons.prems, of env a0 "Plain a"]
  have k: "lastResult (argsChangedEffect env a0 (Plain a) options state) = lastResult state"
    "argsForLastResult (argsChangedEffect env a0 (Plain a) options state) =
       argsForLastResult state"
    "initialData (parseOptions options) = JUndefined \<or>
       haveArgsEverChanged (argsChangedEffect env a0 (Plain a) options state)"
    by auto
  from Cons.IH[OF k(3), of a] k(1,2) show ?case by simp
qed

text \<open>
  Claim C2, as the code has it. Take any run of an enabled \<^verbatim>\<open>useQuery\<close> with
  \<^verbatim>\<open>keepPreviousData\<close> true in which the client delivered a result or an error \<open>r\<close> (the
  event \<open>ev\<close>, after the events \<open>pre\<close>) and since then only the args have changed
  (\<open>later\<close>). Let \<^verbatim>\<open>initialData\<close> be absent, or let the args have had a key other than that
  of the initial args before \<open>r\<close> was delivered, so that the effect that moves off
  \<^verbatim>\<open>initialData\<close> does not replace \<open>r\<close>. If no result is available for the current args
  (\<^verbatim>\<open>syncResult\<close> is \<^verbatim>\<open>undefined\<close>) and \<open>r\<close> is truthy, the hook returns \<open>r\<close>: the state
  holds it as \<open>lastResult\<close> with the args it was delivered for; \<^verbatim>\<open>data\<close> is \<open>r\<close> when \<open>r\<close>
  is not an \<^verbatim>\<open>Error\<close>; when it is an \<^verbatim>\<open>Error\<close>, \<^verbatim>\<open>error\<close> is \<open>r\<close> and \<^verbatim>\<open>data\<close> is
  \<^verbatim>\<open>undefined\<close>. In both cases \<^verbatim>\<open>isLoading\<close> is false, and \<^verbatim>\<open>isStale\<close> is true exactly
  when the serialization of the current args differs from that of the args \<open>r\<close> was
  delivered for.
\<close>

theorem keepPreviousData_returns_previous:
  assumes keep: "keepPreviousData (parseOptions options) = Some True"
    and on: "enabled (parseOptions options)"
    and received: "delivered ev = Some r"
    and prev: "truthy r"
    and noreplace: "initialData (parseOptions options) = JUndefined \<or>
                    (\<exists>a. QArgs a \<in> set pre \<and> queryKey env a \<noteq> queryKey env a0)"
    and nosync: "syncResult env (Plain (snd (qrun env options a0 (pre @ ev # map QArgs later))))
                   options (fst (qrun env options a0 (pre @ ev # map QArgs later))) =
                 Inr JUndefined"
  shows "lastResult (fst (qrun env options a0 (pre @ ev # map QArgs later))) = r \<and>
         argsForLastResult (fst (qrun env options a0 (pre @ ev # map QArgs later))) =
           Some (snd (qrun env options a0 pre)) \<and>
         data env (Plain (snd (qrun env options a0 (pre @ ev # map QArgs later)))) options
           (fst (qrun env options a0 (pre @ ev # map QArgs later))) =
           Inr (if isError r then JUndefined else r) \<and>
         error env (Plain (snd (qrun env options a0 (pre @ ev # map QArgs later)))) options
           (fst (qrun env options a0 (pre @ ev # map QArgs later))) =
           Inr (if isError r then r else JUndefined) \<and>
         isLoading env (Plain (snd (qrun env options a0 (pre @ ev # map QArgs later)))) options
           (fst (qrun env options a0 (pre @ ev # map QArgs later))) = Inr False \<and>
         isStale env (Plain (snd (qrun env options a0 (pre @ ev # map QArgs later)))) options
           (fst (qrun env options a0 (pre @ ev # map QArgs later))) =
           Inr (JSON_stringify env (convexToJson env (snd (qrun env options a0 pre))) \<noteq>
                JSON_stringify env (convexToJson env
                  (snd (qrun env options a0 (pre @ ev # map QArgs later)))))"
proof -
  obtain st0 c0 where p: "qrun env options a0 pre = (st0, c0)"
    by (cases "qrun env options a0 pre")
  define st1 where "st1 = fst (qstep env a0 options ev (st0, c0))"
  from qstep_delivered[OF on received, of env a0 st0 c0]
  have s1: "qstep env a0 options ev (st0, c0) = (st1, c0)"
    and l1: "lastResult st1 = r" and a1: "argsForLastResult st1 = Some c0"
    and h1: "haveArgsEverChanged st1 = haveArgsEverChanged st0"
    by (simp_all add: st1_def prod_eq_iff)
  have full: "qrun env options a0 (pre @ ev # map QArgs later) =
                fold (qstep env a0 options) (map QArgs later) (st1, c0)"
    by (simp add: qrun_append p s1)
  have "haveArgsEverChanged st0 =
          (\<exists>a. QArgs a \<in> set pre \<and> queryKey env a \<noteq> queryKey env a0)"
    using qrun_changed_iff[of env options a0 pre] p by simp
  with noreplace h1
  have nr: "initialData (parseOptions options) = JUndefined \<or> haveArgsEverChanged st1"
    by simp
  from args_only_keep[OF nr, of env a0 later c0] l1 a1
  have lr: "lastResult (fst (qrun env options a0 (pre @ ev # map QArgs later))) = r"
    and ar: "argsForLastResult (fst (qrun env options a0 (pre @ ev # map QArgs later))) =
               Some c0"
    by (simp_all add: full)
  from prev lr
  have tr: "truthy (lastResult (fst (qrun env options a0 (pre @ ev # map QArgs later))))"
    by simp
  from keep_previous_of_lastResult[OF keep nosync tr ar] lr ar p
  show ?thesis by simp
qed

theorem keepPreviousData_returns_previous_witness:
  "data demo_env (Plain [''emacs'']) keep_options
     (fst (qrun demo_env keep_options [''vim''] [QDeliver (JNumber 7), QArgs [''emacs'']])) =
     Inr (JNumber 7) \<and>
   isLoading demo_env (Plain [''emacs'']) keep_options
     (fst (qrun demo_env keep_options [''vim''] [QDeliver (JNumber 7), QArgs [''emacs'']])) =
     Inr False \<and>
   isStale demo_env (Plain [''emacs'']) keep_options
     (fst (qrun demo_env keep_options [''vim''] [QDeliver (JNumber 7), QArgs [''emacs'']])) =
     Inr True"
  using keepPreviousData_returns_previous
    [where options = keep_options and ev = "QDeliver (JNumber 7)" and r = "JNumber 7" and
      env = demo_env and ?a0.0 = "[''vim'']" and pre = "[]" and later = "[[''emacs'']]"]
  by (simp add: query_defs qrun_def argsChangedEffect_def)

text \<open>
  Claim C2 as stated fails when the previous result is an error. The query for
  \<open>[''vim'']\<close> failed with \<open>boom\<close>, the args are now \<open>[''emacs'']\<close>, for which the client
  has no result yet, and \<^verbatim>\<open>keepPreviousData\<close> is true: the previous result is defined
  but \<^verbatim>\<open>data\<close> is \<^verbatim>\<open>undefined\<close>; the previous result is returned by \<^verbatim>\<open>error\<close>.
\<close>

theorem keepPreviousData_error_counterexample:
  "keepPreviousData (parseOptions keep_options) = Some True \<and>
   syncResult demo_env (Plain [''emacs'']) keep_options
     (onError_cb [''vim''] ''boom'' (useQuery_init keep_options)) = Inr JUndefined \<and>
   lastResult (onError_cb [''vim''] ''boom'' (useQuery_init keep_options)) = JError ''boom'' \<and>
   data demo_env (Plain [''emacs'']) keep_options
     (onError_cb [''vim''] ''boom'' (useQuery_init keep_options)) = Inr JUndefined \<and>
   error demo_env (Plain [''emacs'']) keep_options
     (onError_cb [''vim''] ''boom'' (useQuery_init keep_options)) = Inr (JError ''boom'')"
  by (simp add: query_defs)

text \<open>
  \<^verbatim>\<open>staleAllowed\<close> tests the truthiness of \<^verbatim>\<open>state.lastResult\<close>, so a previous result
  that is \<open>0\<close>, \<^verbatim>\<open>false\<close>, \<^verbatim>\<open>null\<close> or the empty string is not kept: the hook reports
  loading.
\<close>

lemma keepPreviousData_falsy_previous:
  "lastResult (onUpdate_cb [''vim''] (JNumber 0) (useQuery_init keep_options)) = JNumber 0 \<and>
   data demo_env (Plain [''emacs'']) keep_options
     (onUpdate_cb [''vim''] (JNumber 0) (useQuery_init keep_options)) = Inr JUndefined \<and>
   isLoading demo_env (Plain [''emacs'']) keep_options
     (onUpdate_cb [''vim''] (JNumber 0) (useQuery_init keep_options)) = Inr True"
  by (simp add: query_defs)

text \<open>
  With \<^verbatim>\<open>initialData\<close> defined, the first change of args stores \<^verbatim>\<open>initialData\<close> as the
  last result (lines 140-145), also over a result that was delivered before: \<open>7\<close> was
  delivered for \<open>[''vim'']\<close>, and after the change to \<open>[''emacs'']\<close> the hook returns the
  \<^verbatim>\<open>initialData\<close> \<open>5\<close>.
\<close>

lemma keepPreviousData_initialData_replaces:
  "data demo_env (Plain [''vim'']) seeded_options
     (fst (qrun demo_env seeded_options [''vim''] [QDeliver (JNumber 7)])) = Inr (JNumber 7) \<and>
   lastResult
     (fst (qrun demo_env seeded_options [''vim''] [QDeliver (JNumber 7), QArgs [''emacs'']])) =
     JNumber 5 \<and>
   data demo_env (Plain [''emacs'']) seeded_options
     (fst (qrun demo_env seeded_options [''vim''] [QDeliver (JNumber 7), QArgs [''emacs'']])) =
     Inr (JNumber 5)"
  by (simp add: query_defs qrun_def argsChangedEffect_def seeded_options_def)

text \<open>
  \<^verbatim>\<open>sameArgsAsLastResult\<close> compares the serializations that the two library functions
  give for the args of the last result and for the current args.
\<close>

lemma sameArgsAsLastResult_iff:
  "sameArgsAsLastResult env args state =
     (\<exists>b. argsForLastResult state = Some b \<and>
          JSON_stringify env (convexToJson env b) =
          JSON_stringify env (convexToJson env (parseArgs args)))"
  by (auto simp: sameArgsAsLastResult_def queryKey_def split: option.splits)

text \<open>
  Claim C9. When \<^verbatim>\<open>enabled\<close> is \<^verbatim>\<open>false\<close> or a closure returning \<^verbatim>\<open>false\<close> (in an options
  object or in one returned by a closure), the subscription effect makes no
  \<^verbatim>\<open>client.onUpdate\<close> call and \<^verbatim>\<open>isLoading\<close> is false, whatever \<^verbatim>\<open>data\<close> and \<^verbatim>\<open>error\<close>
  are. When \<^verbatim>\<open>enabled\<close> is absent it resolves to true and the effect subscribes with the
  current args; and with \<^verbatim>\<open>enabled\<close> true, \<^verbatim>\<open>data\<close> and \<^verbatim>\<open>error\<close> both \<^verbatim>\<open>undefined\<close> mean
  \<^verbatim>\<open>isLoading\<close> is true.
\<close>

theorem disabled_query_not_subscribed:
  "((enabled raw = Some (EnabledBool False) \<or>
     (\<exists>f. enabled raw = Some (EnabledFn f) \<and> f () = False)) \<and>
    (options = Plain raw \<or> (\<exists>g. options = Closure g \<and> g () = raw))
     \<longrightarrow> subscribeEffect args options = None \<and> isLoading env args options state = Inr False) \<and>
   (enabled raw = None \<and> (options = Plain raw \<or> (\<exists>g. options = Closure g \<and> g () = raw))
     \<longrightarrow> enabled (parseOptions options) = True \<and>
         subscribeEffect args options = Some (parseArgs args)) \<and>
   (enabled (parseOptions options) = True \<and>
    data env args options state = Inr JUndefined \<and> error env args options state = Inr JUndefined
     \<longrightarrow> isLoading env args options state = Inr True)"
  by (auto simp: subscribeEffect_def isLoading_def cleanOptions_def Let_def)

theorem disabled_query_not_subscribed_witness:
  "subscribeEffect (Plain [''emacs'']) (Plain off_options) = None \<and>
   data demo_env (Plain [''emacs'']) (Plain off_options) (useQuery_init (Plain off_options)) =
     Inr JUndefined \<and>
   error demo_env (Plain [''emacs'']) (Plain off_options) (useQuery_init (Plain off_options)) =
     Inr JUndefined \<and>
   isLoading demo_env (Plain [''emacs'']) (Plain off_options) (useQuery_init (Plain off_options)) =
     Inr False \<and>
   subscribeEffect (Plain [''emacs''])
     (Closure (\<lambda>u. off_options\<lparr>enabled := Some (EnabledFn (\<lambda>u. False))\<rparr>)) = None \<and>
   subscribeEffect (Plain [''emacs'']) (Plain (off_options\<lparr>enabled := None\<rparr>)) = Some [''emacs''] \<and>
   isLoading demo_env (Plain [''emacs'']) (Plain (off_options\<lparr>enabled := None\<rparr>))
     (useQuery_init (Plain off_options)) = Inr True"
  using disabled_query_not_subscribed [of off_options "Plain off_options" "Plain [''emacs'']" demo_env
      "useQuery_init (Plain off_options)"]
    disabled_query_not_subscribed [of "off_options\<lparr>enabled := Some (EnabledFn (\<lambda>u. False))\<rparr>"
      "Closure (\<lambda>u. off_options\<lparr>enabled := Some (EnabledFn (\<lambda>u. False))\<rparr>)" "Plain [''emacs'']"
      demo_env "useQuery_init (Plain off_options)"]
    disabled_query_not_subscribed [of "off_options\<lparr>enabled := None\<rparr>"
      "Plain (off_options\<lparr>enabled := None\<rparr>)" "Plain [''emacs'']" demo_env
      "useQuery_init (Plain off_options)"]
  by (simp add: query_defs)

section \<open>\<^verbatim>\<open>usePaginatedQuery\<close>: supporting lemmas\<close>

lemmas run_defs =
  run_def mount_def effect_body_def effect_cleanup_def unsubscribeAll_def
  subscribeToPage_def usePaginatedQuery_init_def client_onUpdate_def client_unsubscribe_def
  deliver_def deliverError_def page_onUpdate_def page_onError_def loadMore_def pageKey_of_def
  cursor_truthy_def initialNumItems_of_def Let_def

lemma findIndex_None_iff: "findIndex P xs = None \<longleftrightarrow> (\<forall>x\<in>set xs. \<not> P x)"
  by (induction xs) auto

lemma findIndex_Some:
  "findIndex P xs = Some i \<Longrightarrow> i < length xs \<and> P (xs ! i) \<and> (\<forall>j<i. \<not> P (xs ! j))"
proof (induction xs arbitrary: i)
  case Nil
  then show ?case by simp
next
  case (Cons x xs)
  show ?case
  proof (cases "P x")
    case True
    with Cons.prems show ?thesis by simp
  next
    case False
    with Cons.prems obtain k where k: "findIndex P xs = Some k" "i = Suc k" by auto
    from Cons.IH[OF k(1)] False k(2) show ?thesis
      by (auto simp: nth_Cons split: nat.splits)
  qed
qed

lemma concat_map_split:
  assumes "i < length xs"
  shows "concat (map f xs) =
           concat (map f (take i xs)) @ f (xs ! i) @ concat (map f (drop (Suc i) xs))"
proof -
  from assms have "xs = take i xs @ xs ! i # drop (Suc i) xs" by (rule id_take_nth_drop)
  then have "concat (map f xs) = concat (map f (take i xs @ xs ! i # drop (Suc i) xs))" by simp
  then show ?thesis by simp
qed

lemma concat_map_update:
  "i < length xs \<Longrightarrow>
   concat (map f (xs[i := y])) =
     concat (map f (take i xs)) @ f y @ concat (map f (drop (Suc i) xs))"
  by (simp add: upd_conv_take_nth_drop)

text \<open>
  The pages after the update callback. Writing the delivered page only when \<^verbatim>\<open>isEqual\<close>
  finds a difference leaves the same list as writing it always.
\<close>

lemma pages_page_onUpdate:
  "pages (page_onUpdate k d st) =
     (case findIndex (\<lambda>p. continueCursor p = continueCursor d) (pages st) of
        None \<Rightarrow> pages st @ [d]
      | Some i \<Rightarrow> (pages st)[i := d])"
proof (cases "findIndex (\<lambda>p. continueCursor p = continueCursor d) (pages st)")
  case None
  then show ?thesis by (simp add: page_onUpdate_def)
next
  case (Some i)
  then have "i < length (pages st)" using findIndex_Some by fastforce
  with Some show ?thesis
    by (auto simp: page_onUpdate_def Let_def list_update_same_conv)
qed

text \<open>No two stored pages carry the same \<^verbatim>\<open>continueCursor\<close>, in any run of the hook.\<close>

lemma page_onUpdate_distinct:
  assumes "distinct (map continueCursor (pages st))"
  shows "distinct (map continueCursor (pages (page_onUpdate k d st)))"
proof (cases "findIndex (\<lambda>p. continueCursor p = continueCursor d) (pages st)")
  case None
  then have "continueCursor d \<notin> set (map continueCursor (pages st))"
    by (auto simp: findIndex_None_iff)
  with assms None show ?thesis by (simp add: pages_page_onUpdate)
next
  case (Some i)
  from findIndex_Some[OF Some] have "i < length (pages st)"
    and "continueCursor (pages st ! i) = continueCursor d" by auto
  then have "map continueCursor ((pages st)[i := d]) = map continueCursor (pages st)"
    by (simp add: map_update list_update_same_conv)
  with assms Some show ?thesis by (simp add: pages_page_onUpdate)
qed

lemma subscribeToPage_pages: "pages (snd (subscribeToPage options cursor a st)) = pages st"
  by (simp add: subscribeToPage_def Let_def)

lemma effect_body_pages:
  "pages (effect_body options args st) =
     (case initialData_p options of
        Some initial \<Rightarrow> if isFirstRender st then [initial] else []
      | None \<Rightarrow> [])"
  by (simp add: effect_body_def subscribeToPage_pages unsubscribeAll_def Let_def
      split: option.splits)

lemma step_distinct:
  assumes "distinct (map continueCursor (pages (fst s)))"
  shows "distinct (map continueCursor (pages (fst (step options ev s))))"
proof (cases s)
  case (Pair st cur)
  with assms show ?thesis
    by (cases ev)
      (simp_all add: effect_body_pages loadMore_def subscribeToPage_pages deliver_def
        deliverError_def page_onError_def effect_cleanup_def unsubscribeAll_def
        page_onUpdate_distinct split: option.splits)
qed

lemma run_snoc: "run options a (evs @ [ev]) = step options ev (run options a evs)"
  by (simp add: run_def)

lemma run_distinct_cursors: "distinct (map continueCursor (pages (fst (run options a evs))))"
proof (induction evs rule: rev_induct)
  case Nil
  show ?case by (simp add: run_def mount_def effect_body_pages split: option.splits)
next
  case (snoc ev evs)
  then show ?case by (simp add: run_snoc step_distinct)
qed

text \<open>What the cleanup unsubscribes: the handles stored in the map, and no other.\<close>

lemma fold_unsubscribe_active:
  "active (fold client_unsubscribe hs c) = filter (\<lambda>e. fst e \<notin> set hs) (active c)"
proof (induction hs arbitrary: c)
  case Nil
  show ?case by simp
next
  case (Cons h hs)
  have "active (fold client_unsubscribe (h # hs) c) =
          filter (\<lambda>e. fst e \<notin> set hs) (active (client_unsubscribe h c))"
    by (simp add: Cons.IH)
  also have "\<dots> = filter (\<lambda>e. fst e \<notin> set (h # hs)) (active c)"
    by (simp add: client_unsubscribe_def conj_commute)
  finally show ?case .
qed

lemma fold_unsubscribe_issued: "issued (fold client_unsubscribe hs c) = issued c"
  by (induction hs arbitrary: c) (simp_all add: client_unsubscribe_def)

lemma unsubscribeAll_active:
  "active (client (unsubscribeAll st)) =
     filter (\<lambda>e. fst e \<notin> snd ` set (subscriptions st)) (active (client st))"
  by (simp add: unsubscribeAll_def fold_unsubscribe_active)

text \<open>
  A change of args after the first render: the state is reset, the map holds the one new
  subscription to the first page, and the client keeps every subscription whose handle was
  not in the map.
\<close>

lemma args_change_resets:
  assumes "\<not> isFirstRender st"
  shows "nextCursor (effect_body options args (effect_cleanup st)) = None \<and>
         pages (effect_body options args (effect_cleanup st)) = [] \<and>
         pagesLoading (effect_body options args (effect_cleanup st)) = [(''initial'', True)] \<and>
         isDone_st (effect_body options args (effect_cleanup st)) = False \<and>
         error_st (effect_body options args (effect_cleanup st)) = None \<and>
         subscriptions (effect_body options args (effect_cleanup st)) =
           [(''initial'', issued (client st))] \<and>
         status (effect_body options args (effect_cleanup st)) = LoadingFirstPage"
  using assms
  by (simp add: effect_body_def effect_cleanup_def unsubscribeAll_def subscribeToPage_def
      client_onUpdate_def pageKey_of_def cursor_truthy_def status_def fold_unsubscribe_active
      fold_unsubscribe_issued Let_def split: option.splits)

lemma args_change_active:
  "active (client (effect_body options args (effect_cleanup st))) =
     filter (\<lambda>e. fst e \<notin> snd ` set (subscriptions st)) (active (client st)) @
     [(issued (client st),
       \<lparr>sub_args = parseArgs args, sub_numItems = initialNumItems_of options,
        sub_cursor = None, sub_pageKey = ''initial''\<rparr>)]"
  by (simp add: effect_body_def effect_cleanup_def unsubscribeAll_def subscribeToPage_def
      client_onUpdate_def pageKey_of_def cursor_truthy_def fold_unsubscribe_active
      fold_unsubscribe_issued Let_def split: option.splits)

lemma subscribeToPage_client:
  "client (snd (subscribeToPage options cursor a st)) =
     (client st)\<lparr>active := active (client st) @
         [(issued (client st),
           \<lparr>sub_args = a, sub_numItems = initialNumItems_of options,
            sub_cursor = cursor, sub_pageKey = pageKey_of cursor\<rparr>)],
       issued := Suc (issued (client st))\<rparr>"
  by (simp add: subscribeToPage_def client_onUpdate_def Let_def)

lemma subscribeToPage_subscriptions:
  "subscriptions (snd (subscribeToPage options cursor a st)) =
     AList.update (pageKey_of cursor) (issued (client st)) (subscriptions st)"
  by (simp add: subscribeToPage_def client_onUpdate_def Let_def)

text \<open>\<^verbatim>\<open>loadMore\<close> does not read its argument.\<close>

lemma loadMore_numItems_irrelevant:
  "loadMore options args n st = loadMore options args m st"
  by (simp add: loadMore_def)

lemma args_change_unsubscribes_tracked:
  assumes "fst ` set (active (client st)) \<subseteq> snd ` set (subscriptions st)"
  shows "active (client (effect_body options args (effect_cleanup st))) =
           [(issued (client st),
             \<lparr>sub_args = parseArgs args, sub_numItems = initialNumItems_of options,
              sub_cursor = None, sub_pageKey = ''initial''\<rparr>)]"
proof -
  from assms have "filter (\<lambda>e. fst e \<notin> snd ` set (subscriptions st)) (active (client st)) = []"
    by (auto simp: filter_empty_conv)
  then show ?thesis by (simp add: args_change_active)
qed

text \<open>Handles are never reused: \<open>handles_issued\<close> holds along every run.\<close>

lemma subscribeToPage_handles:
  assumes "handles_issued st"
  shows "handles_issued (snd (subscribeToPage options cursor a st))"
  using assms
  by (auto simp: handles_issued_def subscribeToPage_client subscribeToPage_subscriptions
      update_conv' less_Suc_eq)

lemma unsubscribeAll_handles:
  assumes "handles_issued st"
  shows "handles_issued (unsubscribeAll st)"
  using assms
  by (auto simp: handles_issued_def unsubscribeAll_def fold_unsubscribe_active
      fold_unsubscribe_issued)

lemma effect_body_handles:
  assumes "handles_issued st"
  shows "handles_issued (effect_body options args st)"
proof -
  have un: "handles_issued (unsubscribeAll st)" using assms by (rule unsubscribeAll_handles)
  have upd: "handles_issued (s\<lparr>nextCursor := nc, pages := ps, pagesLoading := pl,
               isDone_st := dn, error_st := None, isFirstRender := False\<rparr>)"
    if "handles_issued s" for s :: "('a, 'b) PaginatedState" and nc ps pl dn
    using that by (simp add: handles_issued_def)
  show ?thesis
    unfolding effect_body_def Let_def
    by (auto split: option.splits intro!: subscribeToPage_handles upd un)
qed

lemma step_handles:
  assumes "handles_issued (fst s)"
  shows "handles_issued (fst (step options ev s))"
proof (cases s)
  case (Pair st cur)
  with assms have h: "handles_issued st" by simp
  show ?thesis
  proof (cases ev)
    case (ArgsChange a)
    with Pair h show ?thesis
      by (simp add: effect_cleanup_def effect_body_handles unsubscribeAll_handles)
  next
    case (LoadMore n)
    with Pair h show ?thesis by (simp add: loadMore_def subscribeToPage_handles)
  next
    case (Deliver k d)
    with Pair h show ?thesis
      by (auto simp: deliver_def page_onUpdate_def handles_issued_def Let_def
          split: option.splits)
  next
    case (DeliverError k e)
    with Pair h show ?thesis
      by (auto simp: deliverError_def page_onError_def handles_issued_def split: option.splits)
  next
    case Unmount
    with Pair h show ?thesis by (simp add: effect_cleanup_def unsubscribeAll_handles)
  qed
qed

lemma run_handles: "handles_issued (fst (run options a evs))"
proof (induction evs rule: rev_induct)
  case Nil
  have "handles_issued
          (usePaginatedQuery_init options \<lparr>active = [], issued = 0\<rparr> :: ('a, 'b) PaginatedState)"
    by (simp add: handles_issued_def usePaginatedQuery_init_def)
  then show ?case by (simp add: run_def mount_def effect_body_handles)
next
  case (snoc ev evs)
  then show ?case by (simp add: run_snoc step_handles)
qed

section \<open>\<^verbatim>\<open>usePaginatedQuery\<close>: properties\<close>

text \<open>
  The accumulation rule of the update callback (lines 314-329). The pages are an
  append/update list keyed by \<^verbatim>\<open>continueCursor\<close>. For every page \<open>d\<close> that the client delivers through an active
  subscription: if some stored page has the \<^verbatim>\<open>continueCursor\<close> of \<open>d\<close>, the first such
  page is replaced by \<open>d\<close> in place (same length, same order), and \<^verbatim>\<open>results\<close> changes
  only in that the items of the replaced page give way to the items of \<open>d\<close>, at the same
  position; otherwise \<open>d\<close> is appended at the end and its items are appended to
  \<^verbatim>\<open>results\<close>. The second case does not ask which subscription delivered \<open>d\<close>: a page
  delivered again by its subscription with a \<^verbatim>\<open>continueCursor\<close> that no stored page has is
  appended as one more page.
\<close>

theorem delivered_page_replaced_or_appended:
  assumes sub: "map_of (active (client st)) h = Some s"
  shows "((\<exists>p\<in>set (pages st). continueCursor p = continueCursor d) \<longrightarrow>
            (\<exists>i<length (pages st).
                continueCursor (pages st ! i) = continueCursor d \<and>
                (\<forall>j<i. continueCursor (pages st ! j) \<noteq> continueCursor d) \<and>
                pages (deliver h d st) = (pages st)[i := d] \<and>
                length (pages (deliver h d st)) = length (pages st) \<and>
                (\<exists>before after.
                    results st = before @ page (pages st ! i) @ after \<and>
                    results (deliver h d st) = before @ page d @ after))) \<and>
         ((\<forall>p\<in>set (pages st). continueCursor p \<noteq> continueCursor d) \<longrightarrow>
            pages (deliver h d st) = pages st @ [d] \<and>
            results (deliver h d st) = results st @ page d)"
proof -
  let ?P = "\<lambda>p. continueCursor p = continueCursor d"
  have dl: "deliver h d st = page_onUpdate (sub_pageKey s) d st"
    using sub by (simp add: deliver_def)
  have hit: "\<exists>i<length (pages st).
                continueCursor (pages st ! i) = continueCursor d \<and>
                (\<forall>j<i. continueCursor (pages st ! j) \<noteq> continueCursor d) \<and>
                pages (deliver h d st) = (pages st)[i := d] \<and>
                length (pages (deliver h d st)) = length (pages st) \<and>
                (\<exists>before after.
                    results st = before @ page (pages st ! i) @ after \<and>
                    results (deliver h d st) = before @ page d @ after)"
    if ex: "\<exists>p\<in>set (pages st). continueCursor p = continueCursor d"
  proof -
    from ex have "findIndex ?P (pages st) \<noteq> None" by (simp add: findIndex_None_iff)
    then obtain i where i: "findIndex ?P (pages st) = Some i" by auto
    from findIndex_Some[OF i] have lt: "i < length (pages st)"
      and at: "continueCursor (pages st ! i) = continueCursor d"
      and first: "\<forall>j<i. continueCursor (pages st ! j) \<noteq> continueCursor d" by auto
    have pg: "pages (deliver h d st) = (pages st)[i := d]"
      by (simp add: dl pages_page_onUpdate i)
    have r0: "results st = concat (map page (take i (pages st))) @ page (pages st ! i) @
                concat (map page (drop (Suc i) (pages st)))"
      unfolding results_def by (rule concat_map_split[OF lt])
    have r1: "results (deliver h d st) = concat (map page (take i (pages st))) @ page d @
                concat (map page (drop (Suc i) (pages st)))"
      unfolding results_def pg by (rule concat_map_update[OF lt])
    from lt at first pg r0 r1 show ?thesis by (intro exI[of _ i]) auto
  qed
  have miss: "pages (deliver h d st) = pages st @ [d] \<and>
            results (deliver h d st) = results st @ page d"
    if no: "\<forall>p\<in>set (pages st). continueCursor p \<noteq> continueCursor d"
  proof -
    from no have "findIndex ?P (pages st) = None" by (simp add: findIndex_None_iff)
    then have "pages (deliver h d st) = pages st @ [d]"
      by (simp add: dl pages_page_onUpdate)
    then show ?thesis by (simp add: results_def)
  qed
  from hit miss show ?thesis by blast
qed

theorem delivered_page_replaced_or_appended_witness:
  "pages (deliver 0 pageA2 (fst (run demo_options [] [Deliver 0 pageA]))) = [pageA2] \<and>
   results (deliver 0 pageA2 (fst (run demo_options [] [Deliver 0 pageA]))) = [1, 2, 3] \<and>
   pages (deliver 0 pageB (fst (run demo_options [] [Deliver 0 pageA]))) = [pageA, pageB]"
  using delivered_page_replaced_or_appended
    [of "fst (run demo_options [] [Deliver 0 pageA])" 0
      "\<lparr>sub_args = [], sub_numItems = 10, sub_cursor = None, sub_pageKey = ''initial''\<rparr>" pageA2]
   delivered_page_replaced_or_appended
    [of "fst (run demo_options [] [Deliver 0 pageA])" 0
      "\<lparr>sub_args = [], sub_numItems = 10, sub_cursor = None, sub_pageKey = ''initial''\<rparr>" pageB]
  by (simp add: run_defs demo_options_def pageA_def pageA2_def pageB_def results_def)

text \<open>
  Claim C1. An update delivered for an already-loaded page is to take the place of that
  page, so that its items are in \<^verbatim>\<open>results\<close> once. The callback finds the page to replace
  by the \<^verbatim>\<open>continueCursor\<close> of the update, and misses it when the cursor has changed. The
  hook is mounted and subscription \<open>0\<close>, the one to the first page, delivers the page
  \<open>[1, 2]\<close> with \<^verbatim>\<open>continueCursor\<close> \<open>A\<close>. An item \<open>0\<close> is inserted in front, so the same
  subscription delivers the first page again, now \<open>[0, 1]\<close> with \<^verbatim>\<open>continueCursor\<close> \<open>B\<close>.
  No stored page has cursor \<open>B\<close>: the update is appended, the old version of the page
  stays, and item \<open>1\<close> is in \<^verbatim>\<open>results\<close> twice.
\<close>

theorem update_of_loaded_page_duplicates:
  "map_of (active (client (fst (run demo_options [] [Deliver 0 pageA])))) 0 =
     Some \<lparr>sub_args = [], sub_numItems = 10, sub_cursor = None, sub_pageKey = ''initial''\<rparr> \<and>
   results (fst (run demo_options [] [Deliver 0 pageA])) = [1, 2] \<and>
   pages (fst (run demo_options [] [Deliver 0 pageA, Deliver 0 pageB])) = [pageA, pageB] \<and>
   results (fst (run demo_options [] [Deliver 0 pageA, Deliver 0 pageB])) = [1, 2, 0, 1]"
  by (simp add: run_defs demo_options_def pageA_def pageB_def results_def)



text \<open>
  Claim C10. \<^verbatim>\<open>loadMore\<close> does not look at \<^verbatim>\<open>status\<close>: in every state a call registers
  exactly one new subscription on the client, for the cursor \<^verbatim>\<open>nextCursor\<close>, and
  unsubscribes none. The new \<^verbatim>\<open>unsubscribe\<close> is stored under the page key (\<^verbatim>\<open>nextCursor\<close>,
  or \<open>initial\<close> when it is \<^verbatim>\<open>null\<close>); the other keys of the map keep their entries. A
  subscription that was stored under that key before is still active on the client, and
  (handles being never reused) its \<^verbatim>\<open>unsubscribe\<close> is no longer the entry of that key.
\<close>

theorem loadMore_unguarded:
  "client (loadMore options args n st) =
     (client st)\<lparr>active := active (client st) @
         [(issued (client st),
           \<lparr>sub_args = parseArgs args, sub_numItems = initialNumItems_of options,
            sub_cursor = nextCursor st,
            sub_pageKey = (case nextCursor st of None \<Rightarrow> ''initial'' | Some c \<Rightarrow> c)\<rparr>)],
       issued := Suc (issued (client st))\<rparr> \<and>
   map_of (subscriptions (loadMore options args n st))
     (case nextCursor st of None \<Rightarrow> ''initial'' | Some c \<Rightarrow> c) = Some (issued (client st)) \<and>
   (\<forall>k. k \<noteq> (case nextCursor st of None \<Rightarrow> ''initial'' | Some c \<Rightarrow> c) \<longrightarrow>
        map_of (subscriptions (loadMore options args n st)) k = map_of (subscriptions st) k) \<and>
   (\<forall>old s.
        map_of (subscriptions st) (case nextCursor st of None \<Rightarrow> ''initial'' | Some c \<Rightarrow> c) =
          Some old \<and>
        (old, s) \<in> set (active (client st)) \<longrightarrow>
        (old, s) \<in> set (active (client (loadMore options args n st)))) \<and>
   (handles_issued st \<longrightarrow>
      (\<forall>old.
        map_of (subscriptions st) (case nextCursor st of None \<Rightarrow> ''initial'' | Some c \<Rightarrow> c) =
          Some old \<longrightarrow>
        map_of (subscriptions (loadMore options args n st))
          (case nextCursor st of None \<Rightarrow> ''initial'' | Some c \<Rightarrow> c) \<noteq> Some old))"
  by (auto simp: loadMore_def subscribeToPage_client subscribeToPage_subscriptions
      update_conv' pageKey_of_def handles_issued_def)

theorem loadMore_unguarded_witness:
  "status (fst (run demo_options [] [])) = LoadingFirstPage \<and>
   map fst (active (client (loadMore demo_options (Plain []) 5 (fst (run demo_options [] []))))) =
     [0, 1] \<and>
   subscriptions (loadMore demo_options (Plain []) 5 (fst (run demo_options [] []))) =
     [(''initial'', 1)] \<and>
   status (fst (run demo_options [] [Deliver 0 pageA2])) = Exhausted \<and>
   map fst (active (client (loadMore demo_options (Plain []) 5
     (fst (run demo_options [] [Deliver 0 pageA2]))))) = [0, 1] \<and>
   subscriptions (loadMore demo_options (Plain []) 5
     (fst (run demo_options [] [Deliver 0 pageA2]))) = [(''initial'', 0), (''A'', 1)] \<and>
   subscriptions (fst (run demo_options [] [Deliver 0 pageA, LoadMore 5])) =
     [(''initial'', 0), (''A'', 1)] \<and>
   subscriptions (loadMore demo_options (Plain []) 5
     (fst (run demo_options [] [Deliver 0 pageA, LoadMore 5]))) = [(''initial'', 0), (''A'', 2)] \<and>
   map fst (active (client (loadMore demo_options (Plain []) 5
     (fst (run demo_options [] [Deliver 0 pageA, LoadMore 5]))))) = [0, 1, 2]"
  using loadMore_unguarded [of demo_options "Plain []" 5 "fst (run demo_options [] [])"]
    loadMore_unguarded [of demo_options "Plain []" 5 "fst (run demo_options [] [Deliver 0 pageA2])"]
    loadMore_unguarded [of demo_options "Plain []" 5
      "fst (run demo_options [] [Deliver 0 pageA, LoadMore 5])"]
  by (simp add: run_defs demo_options_def pageA_def pageA2_def status_def)

text \<open>
  Claim C7. \<^verbatim>\<open>loadMore\<close> subscribes to the page at \<^verbatim>\<open>nextCursor\<close> and requests
  \<^verbatim>\<open>initialNumItems\<close> items, \<open>10\<close> when the option is absent; the argument of the call
  has no part in it. With no \<^verbatim>\<open>initialNumItems\<close>, after a first page with
  \<^verbatim>\<open>continueCursor\<close> \<open>A\<close>, the call \<^verbatim>\<open>loadMore(5)\<close> registers a subscription for cursor
  \<open>A\<close> that asks for \<open>10\<close> items, not \<open>5\<close>.
\<close>

theorem loadMore_drops_numItems:
  "map (\<lambda>e. (fst e, sub_cursor (snd e), sub_numItems (snd e)))
     (active (client (fst (run demo_options [] [Deliver 0 pageA, LoadMore 5])))) =
   [(0, None, 10), (1, Some ''A'', 10)]"
  by (simp add: run_defs demo_options_def pageA_def)

text \<open>
  Claim C6. A change of args runs the cleanup and the effect body: every subscription
  whose \<^verbatim>\<open>unsubscribe\<close> is in the map is unsubscribed, the map is cleared, the state is
  reset and one subscription to the first page is made with the new args. A subscription
  that \<^verbatim>\<open>loadMore\<close> has overwritten in the map is not unsubscribed. Two calls of
  \<^verbatim>\<open>loadMore\<close> before the next page arrives leave subscriptions \<open>1\<close> and \<open>2\<close> for cursor
  \<open>A\<close> on the client and only \<open>2\<close> in the map; after the args change to \<open>[''vim'']\<close>,
  subscription \<open>1\<close> for the old args is still active beside the new subscription \<open>3\<close>, and
  a page it delivers lands in the results for the new args.
\<close>

theorem args_change_leaks_overwritten_subscription:
  "map (\<lambda>e. (fst e, sub_args (snd e), sub_cursor (snd e)))
     (active (client (fst (run demo_options [] [Deliver 0 pageA, LoadMore 50, LoadMore 50])))) =
     [(0, [], None), (1, [], Some ''A''), (2, [], Some ''A'')] \<and>
   subscriptions (fst (run demo_options [] [Deliver 0 pageA, LoadMore 50, LoadMore 50])) =
     [(''initial'', 0), (''A'', 2)] \<and>
   map (\<lambda>e. (fst e, sub_args (snd e), sub_cursor (snd e)))
     (active (client (fst (run demo_options []
        [Deliver 0 pageA, LoadMore 50, LoadMore 50, ArgsChange [''vim'']])))) =
     [(1, [], Some ''A''), (3, [''vim''], None)] \<and>
   results (fst (run demo_options []
        [Deliver 0 pageA, LoadMore 50, LoadMore 50, ArgsChange [''vim''], Deliver 1 pageB])) =
     [0, 1]"
  by (simp add: run_defs demo_options_def pageA_def pageB_def results_def)

end
